theory Spec2Isabelle
  imports Complex_Main
begin

section \<open>Data model\<close>

text \<open>
  Python floats as far as the service orders them: the finite values and the two
  infinities (\<open>float('inf')\<close> is the default of \<open>max_price\<close>). Rounding and NaN are
  outside this model; only the order \<open>\<le>\<close> of prices is used by the code.
\<close>

datatype float = NegInf | Finite real | PosInf

fun float_le :: "float \<Rightarrow> float \<Rightarrow> bool" where
  "float_le NegInf _ = True"
| "float_le (Finite a) NegInf = False"
| "float_le (Finite a) (Finite b) = (a \<le> b)"
| "float_le (Finite a) PosInf = True"
| "float_le PosInf PosInf = True"
| "float_le PosInf _ = False"

text \<open>The tables \<open>items\<close>, \<open>categories\<close> and the association table \<open>item_category\<close>
  (rows \<open>(item_id, category_id)\<close>), each in storage order.\<close>

record item =
  item_id :: int
  item_name :: string
  item_description :: "string option"
  item_price :: float

record category =
  category_id :: int
  category_name :: string

record store =
  items :: "item list"
  categories :: "category list"
  item_category :: "(int \<times> int) list"

definition empty_store :: store where
  "empty_store = \<lparr>items = [], categories = [], item_category = []\<rparr>"

text \<open>The request and response schemas \<open>ItemCreate\<close>, \<open>ItemResponse\<close>,
  \<open>CategoryCreate\<close> and \<open>CategoryResponse\<close>.\<close>

record item_create =
  ic_name :: string
  ic_description :: "string option"
  ic_price :: float

record item_response =
  ir_id :: int
  ir_name :: string
  ir_description :: "string option"
  ir_price :: float
  ir_categories :: "string list"

record category_create =
  cc_name :: string

record category_response =
  cr_id :: int
  cr_name :: string
  cr_items :: "item_response list"

text \<open>
  What a handler can raise: an \<open>HTTPException\<close> with its status code and detail, the
  framework's validation error for a body that does not fit the schema (422), the
  database's rejection of a write that breaks \<open>unique=True\<close> on \<open>categories.name\<close>,
  and the driver's \<open>OverflowError\<close> for an integer it cannot bind (both unhandled,
  hence 500).
\<close>

datatype detail =
  Item_not_found | Category_not_found | Category_name_exists
  | Some_items_not_found | Items_not_found

datatype error =
  HTTPException int detail | RequestValidationError | IntegrityError | OverflowError

fun status_code :: "error \<Rightarrow> int" where
  "status_code (HTTPException n d) = n"
| "status_code RequestValidationError = 422"
| "status_code IntegrityError = 500"
| "status_code OverflowError = 500"

section \<open>Queries\<close>

text \<open>
  An id of a request is a Python integer of any size. When a query binds it, the
  database driver takes it as a signed 64-bit integer and raises \<open>OverflowError\<close> for
  any other, as \<open>sqlite3\<close> does: the query is not run. The database stores no key
  out of range, so the id of a stored row is bound without error; in
  \<open>add_item_to_category\<close> and for the category of \<open>update_category\<close> the refusal
  is written for the ids that name no row.
\<close>

definition in_range :: "int \<Rightarrow> bool" where
  "in_range i = (- (2 ^ 63) \<le> i \<and> i < 2 ^ 63)"

text \<open>\<open>db.query(Item).get(item_id)\<close> and \<open>db.query(Category).get(category_id)\<close>.\<close>

definition get_item :: "store \<Rightarrow> int \<Rightarrow> item option" where
  "get_item s iid = find (\<lambda>i. item_id i = iid) (items s)"

definition get_category :: "store \<Rightarrow> int \<Rightarrow> category option" where
  "get_category s cid = find (\<lambda>c. category_id c = cid) (categories s)"

text \<open>The relationships \<open>Item.categories\<close> and \<open>Category.items\<close>: the join of the
  association rows of one side with the table of the other.\<close>

definition item_categories :: "store \<Rightarrow> int \<Rightarrow> category list" where
  "item_categories s iid =
     concat (map (\<lambda>(i, c). if i = iid then filter (\<lambda>cat. category_id cat = c) (categories s) else [])
                 (item_category s))"

definition category_items :: "store \<Rightarrow> int \<Rightarrow> item list" where
  "category_items s cid =
     concat (map (\<lambda>(i, c). if c = cid then filter (\<lambda>it. item_id it = i) (items s) else [])
                 (item_category s))"

text \<open>The \<open>ItemResponse(...)\<close> built at the end of every item handler.\<close>

definition to_response :: "store \<Rightarrow> item \<Rightarrow> item_response" where
  "to_response s it =
     \<lparr>ir_id = item_id it, ir_name = item_name it, ir_description = item_description it,
      ir_price = item_price it,
      ir_categories = map category_name (item_categories s (item_id it))\<rparr>"

definition to_category_response :: "store \<Rightarrow> category \<Rightarrow> category_response" where
  "to_category_response s c =
     \<lparr>cr_id = category_id c, cr_name = category_name c,
      cr_items = map (to_response s) (category_items s (category_id c))\<rparr>"

text \<open>The primary key the database gives a new row: one more than the largest key of
  the table, 1 in an empty table.\<close>

definition new_id :: "int list \<Rightarrow> int" where
  "new_id ids = foldr max ids 0 + 1"

section \<open>Handlers\<close>

text \<open>
  A handler takes the committed store and returns its response with the store after the
  request. The session is closed at the end of every request, so whatever a handler
  changed without reaching \<open>db.commit()\<close> is dropped: an exception returns the store as
  it was.
\<close>

definition create_item :: "item_create \<Rightarrow> store \<Rightarrow> (error + item_response) \<times> store" where
  "create_item item s =
     (let db_item = \<lparr>item_id = new_id (map item_id (items s)), item_name = ic_name item,
                     item_description = ic_description item, item_price = ic_price item\<rparr>;
          s' = s\<lparr>items := items s @ [db_item]\<rparr>
      in (Inr (to_response s' db_item), s'))"

definition update_item :: "int \<Rightarrow> item_create \<Rightarrow> store \<Rightarrow> (error + item_response) \<times> store" where
  "update_item iid item s =
     (if \<not> in_range iid then (Inl OverflowError, s)
      else
        (case get_item s iid of
           None \<Rightarrow> (Inl (HTTPException 404 Item_not_found), s)
         | Some db_item \<Rightarrow>
             (let db_item' = db_item\<lparr>item_name := ic_name item,
                                     item_description := ic_description item,
                                     item_price := ic_price item\<rparr>;
                  s' = s\<lparr>items := map (\<lambda>i. if item_id i = iid then db_item' else i) (items s)\<rparr>
              in (Inr (to_response s' db_item'), s'))))"

datatype message = Item_deleted

definition delete_item :: "int \<Rightarrow> store \<Rightarrow> (error + message) \<times> store" where
  "delete_item iid s =
     (if \<not> in_range iid then (Inl OverflowError, s)
      else
        (case get_item s iid of
           None \<Rightarrow> (Inl (HTTPException 404 Item_not_found), s)
         | Some db_item \<Rightarrow>
             (Inr Item_deleted,
              s\<lparr>items := filter (\<lambda>i. item_id i \<noteq> iid) (items s),
                item_category := filter (\<lambda>(i, c). i \<noteq> iid) (item_category s)\<rparr>)))"

definition create_category ::
  "category_create \<Rightarrow> store \<Rightarrow> (error + category_response) \<times> store" where
  "create_category category s =
     (case find (\<lambda>c. category_name c = cc_name category) (categories s) of
        Some existing_category \<Rightarrow> (Inl (HTTPException 400 Category_name_exists), s)
      | None \<Rightarrow>
          (let db_category = \<lparr>category_id = new_id (map category_id (categories s)),
                              category_name = cc_name category\<rparr>;
               s' = s\<lparr>categories := categories s @ [db_category]\<rparr>
           in if cc_name category \<in> set (map category_name (categories s))
              then (Inl IntegrityError, s)
              else (Inr (to_category_response s' db_category), s')))"

definition get_categories :: "store \<Rightarrow> (error + category_response list) \<times> store" where
  "get_categories s = (Inr (map (to_category_response s) (categories s)), s)"

definition add_item_to_category ::
  "int \<Rightarrow> int \<Rightarrow> store \<Rightarrow> (error + item_response) \<times> store" where
  "add_item_to_category cid iid s =
     (if get_category s cid = None \<and> \<not> in_range cid then (Inl OverflowError, s)
      else if get_item s iid = None \<and> \<not> in_range iid then (Inl OverflowError, s)
      else
        (case get_category s cid of
           None \<Rightarrow> (Inl (HTTPException 404 Category_not_found), s)
         | Some category \<Rightarrow>
             (case get_item s iid of
                None \<Rightarrow> (Inl (HTTPException 404 Item_not_found), s)
              | Some item \<Rightarrow>
                  (let s' = (if item_id item \<notin> set (map item_id (category_items s cid))
                             then s\<lparr>item_category := item_category s @ [(iid, cid)]\<rparr>
                             else s)
                   in (Inr (to_response s' item), s')))))"

text \<open>
  \<open>update_category\<close>. The rename is an \<open>UPDATE\<close> of the rows with the key, sent when
  the name changed; it breaks the unique constraint when another row has the new name.
  The query \<open>Item.id.in_(item_ids)\<close> binds every id of the list.
  \<open>db_category.items = items\<close> deletes the association rows of the items that left the
  collection and inserts rows for those that entered it.
\<close>

definition update_category ::
  "int \<Rightarrow> category_create \<Rightarrow> int list option \<Rightarrow> store \<Rightarrow> (error + category_response) \<times> store" where
  "update_category cid category item_ids s =
     (case get_category s cid of
        None \<Rightarrow>
          (if \<not> in_range cid then (Inl OverflowError, s)
           else (Inl (HTTPException 404 Category_not_found), s))
      | Some db_category \<Rightarrow>
          (if (case find (\<lambda>c. category_name c = cc_name category) (categories s) of
                 Some existing_category \<Rightarrow> category_id existing_category \<noteq> cid
               | None \<Rightarrow> False)
           then (Inl (HTTPException 400 Category_name_exists), s)
           else
             (let db_category' = db_category\<lparr>category_name := cc_name category\<rparr>;
                  s1 = s\<lparr>categories :=
                          map (\<lambda>c. if category_id c = cid then db_category' else c) (categories s)\<rparr>;
                  violation = (category_name db_category \<noteq> cc_name category \<and>
                               list_ex (\<lambda>c. category_id c \<noteq> cid \<and> category_name c = cc_name category)
                                       (categories s))
              in case item_ids of
                   None \<Rightarrow>
                     (if violation then (Inl IntegrityError, s)
                      else (Inr (to_category_response s1 db_category'), s1))
                 | Some ids \<Rightarrow>
                     (let its = filter (\<lambda>i. item_id i \<in> set ids) (items s) in
                      if \<not> list_all in_range ids then (Inl OverflowError, s)
                      else if length its \<noteq> length ids
                      then (Inl (HTTPException 404 Some_items_not_found), s)
                      else
                        (let old = map item_id (category_items s cid);
                             new = map item_id its;
                             s2 = s1\<lparr>item_category :=
                                     filter (\<lambda>(i, c). \<not> (c = cid \<and> i \<in> set old \<and> i \<notin> set new))
                                            (item_category s)
                                     @ map (\<lambda>i. (i, cid)) (filter (\<lambda>i. i \<notin> set old) new)\<rparr>
                         in if violation then (Inl IntegrityError, s)
                            else (Inr (to_category_response s2 db_category'), s2))))))"

text \<open>
  \<open>filter_items\<close>. With category names given, the query joins the items with their
  categories and keeps the rows whose category name is in the list; the joined eager
  load makes the result unique per item.
\<close>

fun unique_items :: "item list \<Rightarrow> item list" where
  "unique_items [] = []"
| "unique_items (x # xs) = x # unique_items (filter (\<lambda>y. item_id y \<noteq> item_id x) xs)"

definition filter_items ::
  "string list option \<Rightarrow> float \<Rightarrow> float \<Rightarrow> store \<Rightarrow> (error + item_response list) \<times> store" where
  "filter_items categories_arg min_price max_price s =
     (let query = (case categories_arg of
                     None \<Rightarrow> items s
                   | Some names \<Rightarrow>
                       if names = [] then items s
                       else concat (map (\<lambda>i. map (\<lambda>c. i)
                                          (filter (\<lambda>c. category_name c \<in> set names)
                                                  (item_categories s (item_id i))))
                                        (items s)));
          query' = filter (\<lambda>i. float_le min_price (item_price i) \<and> float_le (item_price i) max_price)
                          query;
          its = unique_items query'
      in if its = [] then (Inl (HTTPException 404 Items_not_found), s)
         else (Inr (map (to_response s) its), s))"

text \<open>The query parameters of \<open>GET /items\<close> with their defaults \<open>Query(0)\<close> and
  \<open>Query(float('inf'))\<close>.\<close>

definition get_items ::
  "string list option \<Rightarrow> float option \<Rightarrow> float option \<Rightarrow> store
     \<Rightarrow> (error + item_response list) \<times> store" where
  "get_items categories_arg min_price max_price s =
     filter_items categories_arg
       (case min_price of None \<Rightarrow> Finite 0 | Some m \<Rightarrow> m)
       (case max_price of None \<Rightarrow> PosInf | Some m \<Rightarrow> m) s"

section \<open>Request validation\<close>

text \<open>
  The JSON body of \<open>POST /items/\<close> and \<open>PUT /items/{item_id}\<close> before validation: each
  field present or missing. \<open>ItemBase\<close> requires \<open>name: str\<close> and \<open>price: float\<close> and
  lets \<open>description\<close> default to \<open>None\<close>; it puts no constraint on the string.
\<close>

record item_body =
  body_name :: "string option"
  body_description :: "string option"
  body_price :: "float option"

definition validate_item :: "item_body \<Rightarrow> error + item_create" where
  "validate_item b =
     (case body_name b of
        None \<Rightarrow> Inl RequestValidationError
      | Some n \<Rightarrow>
          (case body_price b of
             None \<Rightarrow> Inl RequestValidationError
           | Some p \<Rightarrow> Inr \<lparr>ic_name = n, ic_description = body_description b, ic_price = p\<rparr>))"

definition post_items :: "item_body \<Rightarrow> store \<Rightarrow> (error + item_response) \<times> store" where
  "post_items b s =
     (case validate_item b of Inl e \<Rightarrow> (Inl e, s) | Inr item \<Rightarrow> create_item item s)"

definition put_items :: "int \<Rightarrow> item_body \<Rightarrow> store \<Rightarrow> (error + item_response) \<times> store" where
  "put_items iid b s =
     (case validate_item b of Inl e \<Rightarrow> (Inl e, s) | Inr item \<Rightarrow> update_item iid item s)"

section \<open>The service as a transition system\<close>

datatype request =
  Create_item item_body
  | Update_item int item_body
  | Delete_item int
  | Create_category category_create
  | Get_categories
  | Add_item_to_category int int
  | Update_category int category_create "int list option"
  | Filter_items "string list option" "float option" "float option"

fun handle :: "request \<Rightarrow> store \<Rightarrow> store" where
  "handle (Create_item b) s = snd (post_items b s)"
| "handle (Update_item iid b) s = snd (put_items iid b s)"
| "handle (Delete_item iid) s = snd (delete_item iid s)"
| "handle (Create_category c) s = snd (create_category c s)"
| "handle Get_categories s = snd (get_categories s)"
| "handle (Add_item_to_category cid iid) s = snd (add_item_to_category cid iid s)"
| "handle (Update_category cid c ids) s = snd (update_category cid c ids s)"
| "handle (Filter_items cs mn mx) s = snd (get_items cs mn mx s)"

inductive reachable :: "store \<Rightarrow> bool" where
  initial: "reachable empty_store"
| request: "reachable s \<Longrightarrow> reachable (handle r s)"

text \<open>What the database keeps true of the tables: primary keys identify rows, and
  category names are unique.\<close>

definition items_pk :: "store \<Rightarrow> bool" where
  "items_pk s = distinct (map item_id (items s))"

definition categories_pk :: "store \<Rightarrow> bool" where
  "categories_pk s = distinct (map category_id (categories s))"

definition names_unique :: "store \<Rightarrow> bool" where
  "names_unique s = distinct (map category_name (categories s))"

definition store_inv :: "store \<Rightarrow> bool" where
  "store_inv s = (items_pk s \<and> categories_pk s \<and> names_unique s)"

text \<open>A store for the examples: two items, two categories, one association each.\<close>

definition shop :: store where
  "shop = \<lparr>items = [\<lparr>item_id = 1, item_name = ''Pen'', item_description = None,
                      item_price = Finite 1.5\<rparr>,
                    \<lparr>item_id = 2, item_name = ''Novel'', item_description = Some ''paperback'',
                      item_price = Finite 12\<rparr>],
           categories = [\<lparr>category_id = 1, category_name = ''Office''\<rparr>,
                         \<lparr>category_id = 2, category_name = ''Books''\<rparr>],
           item_category = [(1, 1), (2, 2)]\<rparr>"

section \<open>The filter as the specification words it\<close>

text \<open>
  An item is associated with a category when the category is a row of the category table
  and the association table holds the pair of their ids. An item matches a filter when
  its price lies between the bounds and, if a non-empty list of names is given, it is
  associated with a category named in the list.
\<close>

definition spec_associated :: "store \<Rightarrow> item \<Rightarrow> category \<Rightarrow> bool" where
  "spec_associated s it c =
     (c \<in> set (categories s) \<and> (item_id it, category_id c) \<in> set (item_category s))"

definition spec_matches :: "store \<Rightarrow> string list option \<Rightarrow> float \<Rightarrow> float \<Rightarrow> item \<Rightarrow> bool" where
  "spec_matches s cs lo hi it =
     (float_le lo (item_price it) \<and> float_le (item_price it) hi \<and>
      (case cs of
         None \<Rightarrow> True
       | Some names \<Rightarrow>
           names = [] \<or>
           (\<exists>c \<in> set (categories s). spec_associated s it c \<and> category_name c \<in> set names)))"

text \<open>The rows \<open>filter_items\<close> selects before they are made unique, named for the
  proofs.\<close>

definition selected :: "store \<Rightarrow> string list option \<Rightarrow> float \<Rightarrow> float \<Rightarrow> item list" where
  "selected s cs lo hi =
     filter (\<lambda>i. float_le lo (item_price i) \<and> float_le (item_price i) hi)
       (case cs of
          None \<Rightarrow> items s
        | Some names \<Rightarrow>
            if names = [] then items s
            else concat (map (\<lambda>i. map (\<lambda>c. i) (filter (\<lambda>c. category_name c \<in> set names)
                                                      (item_categories s (item_id i))))
                             (items s)))"


section \<open>Basic facts\<close>

lemma foldr_max_ge: "x \<in> set ids \<Longrightarrow> x \<le> foldr max ids (0::int)"
  by (induction ids) auto

lemma new_id_fresh: "new_id ids \<notin> set ids"
  using foldr_max_ge [of "new_id ids" ids] by (auto simp: new_id_def)

lemma find_by_name_Some:
  "c \<in> set cs \<Longrightarrow> category_name c = n \<Longrightarrow> \<exists>e. find (\<lambda>c. category_name c = n) cs = Some e"
  by (cases "find (\<lambda>c. category_name c = n) cs") (auto simp: find_None_iff)

section \<open>Creating a category under a name in use\<close>

text \<open>
  C7. When the store holds a category with the requested name, \<open>create_category\<close>
  answers 400 and returns the store as it was, so the category table is the same.
\<close>

theorem create_category_existing_name:
  assumes "c \<in> set (categories s)" and "category_name c = cc_name category"
  shows "create_category category s = (Inl (HTTPException 400 Category_name_exists), s)
         \<and> status_code (HTTPException 400 Category_name_exists) = 400
         \<and> categories (snd (create_category category s)) = categories s"
proof -
  obtain e where "find (\<lambda>c. category_name c = cc_name category) (categories s) = Some e"
    using find_by_name_Some [OF assms] by blast
  then show ?thesis by (simp add: create_category_def)
qed

theorem create_category_existing_name_witness:
  "create_category \<lparr>cc_name = ''Books''\<rparr> shop = (Inl (HTTPException 400 Category_name_exists), shop)
   \<and> length (categories (snd (create_category \<lparr>cc_name = ''Books''\<rparr> shop))) = 2"
  using create_category_existing_name
          [of "\<lparr>category_id = 2, category_name = ''Books''\<rparr>" shop "\<lparr>cc_name = ''Books''\<rparr>"]
  by (simp add: shop_def)

section \<open>Updating an item that does not exist\<close>




section \<open>What a successful item update leaves alone\<close>

lemma find_item_id: "find (\<lambda>i. item_id i = iid) xs = Some x \<Longrightarrow> item_id x = iid \<and> x \<in> set xs"
  by (auto simp: find_Some_iff)

lemma filter_map_other:
  "filter (\<lambda>i. item_id i \<noteq> k) (map (\<lambda>i. if item_id i = k then d else i) xs)
     = filter (\<lambda>i. item_id i \<noteq> k) xs" if "item_id d = k"
  using that by (induction xs) auto

lemma filter_map_same:
  "filter (\<lambda>i. item_id i = k) (map (\<lambda>i. if item_id i = k then d else i) xs)
     = map (\<lambda>i. d) (filter (\<lambda>i. item_id i = k) xs)" if "item_id d = k"
  using that by (induction xs) auto

lemma item_categories_cong:
  "categories s' = categories s \<Longrightarrow> item_category s' = item_category s
   \<Longrightarrow> item_categories s' k = item_categories s k"
  by (simp add: item_categories_def cong del: if_weak_cong)

lemma category_items_ids:
  "map item_id (category_items s k)
     = concat (map (\<lambda>(i, c). if c = k then filter (\<lambda>j. j = i) (map item_id (items s)) else [])
                   (item_category s))"
  by (simp add: category_items_def map_concat comp_def case_prod_unfold if_distrib filter_map cong: if_cong)

text \<open>
  C10. After a successful \<open>update_item\<close> the item table has the same ids in the same
  order, the rows with another id are the rows they were, and the rows with the
  requested id carry the new name, description and price. The category table and the
  association table are the same, so every item has the categories it had and every
  category the items it had.
\<close>

theorem update_item_frame:
  assumes "update_item iid item s = (Inr r, s')"
  shows "map item_id (items s') = map item_id (items s)
         \<and> filter (\<lambda>i. item_id i \<noteq> iid) (items s') = filter (\<lambda>i. item_id i \<noteq> iid) (items s)
         \<and> filter (\<lambda>i. item_id i = iid) (items s')
             = map (\<lambda>i. \<lparr>item_id = iid, item_name = ic_name item,
                          item_description = ic_description item, item_price = ic_price item\<rparr>)
                   (filter (\<lambda>i. item_id i = iid) (items s))
         \<and> categories s' = categories s
         \<and> item_category s' = item_category s
         \<and> (\<forall>k. item_categories s' k = item_categories s k)
         \<and> (\<forall>k. map item_id (category_items s' k) = map item_id (category_items s k))"
proof -
  obtain d where d: "get_item s iid = Some d"
    using assms by (cases "get_item s iid") (auto simp: update_item_def split: if_splits)
  then have did: "item_id d = iid"
    using find_item_id by (auto simp: get_item_def)
  define d' where "d' = d\<lparr>item_name := ic_name item, item_description := ic_description item,
                           item_price := ic_price item\<rparr>"
  have s': "s' = s\<lparr>items := map (\<lambda>i. if item_id i = iid then d' else i) (items s)\<rparr>"
    using assms d by (auto simp: update_item_def d'_def Let_def split: if_splits)
  have d'eq: "d' = \<lparr>item_id = iid, item_name = ic_name item,
                   item_description = ic_description item, item_price = ic_price item\<rparr>"
    using did by (simp add: d'_def)
  have d'id: "item_id d' = iid"
    by (simp add: d'eq)
  have ids: "map item_id (items s') = map item_id (items s)"
    using d'id by (simp add: s')
  have others: "filter (\<lambda>i. item_id i \<noteq> iid) (items s') = filter (\<lambda>i. item_id i \<noteq> iid) (items s)"
    using filter_map_other [OF d'id] by (simp add: s')
  have same: "filter (\<lambda>i. item_id i = iid) (items s')
             = map (\<lambda>i. \<lparr>item_id = iid, item_name = ic_name item,
                          item_description = ic_description item, item_price = ic_price item\<rparr>)
                   (filter (\<lambda>i. item_id i = iid) (items s))"
    using filter_map_same [OF d'id] by (simp add: s' d'eq)
  have cats: "categories s' = categories s" and assoc: "item_category s' = item_category s"
    by (simp_all add: s')
  have ic: "\<forall>k. item_categories s' k = item_categories s k"
    using item_categories_cong [OF cats assoc] by simp
  have ci: "\<forall>k. map item_id (category_items s' k) = map item_id (category_items s k)"
    by (simp add: category_items_ids ids assoc cong del: if_weak_cong)
  show ?thesis
    using ids others same cats assoc ic ci by blast
qed

theorem update_item_frame_witness:
  "map item_id (items (snd (update_item 1 \<lparr>ic_name = ''Pencil'', ic_description = Some ''HB'',
                                           ic_price = Finite 2\<rparr> shop))) = [1, 2]
   \<and> filter (\<lambda>i. item_id i \<noteq> 1)
         (items (snd (update_item 1 \<lparr>ic_name = ''Pencil'', ic_description = Some ''HB'',
                                     ic_price = Finite 2\<rparr> shop)))
       = [\<lparr>item_id = 2, item_name = ''Novel'', item_description = Some ''paperback'',
           item_price = Finite 12\<rparr>]
   \<and> categories (snd (update_item 1 \<lparr>ic_name = ''Pencil'', ic_description = Some ''HB'',
                                     ic_price = Finite 2\<rparr> shop)) = categories shop
   \<and> item_category (snd (update_item 1 \<lparr>ic_name = ''Pencil'', ic_description = Some ''HB'',
                                        ic_price = Finite 2\<rparr> shop)) = item_category shop"
proof -
  define u where
    "u = update_item 1 \<lparr>ic_name = ''Pencil'', ic_description = Some ''HB'', ic_price = Finite 2\<rparr> shop"
  have "\<exists>r. fst u = Inr r"
    by (simp add: u_def update_item_def get_item_def in_range_def shop_def Let_def)
  then obtain r where "u = (Inr r, snd u)"
    by (cases u) auto
  then have run:
    "update_item 1 \<lparr>ic_name = ''Pencil'', ic_description = Some ''HB'', ic_price = Finite 2\<rparr> shop
       = (Inr r, snd u)"
    by (simp add: u_def)
  show ?thesis
    unfolding u_def [symmetric]
    using update_item_frame [OF run] by (simp add: shop_def)
qed

section \<open>Filtering items\<close>

lemma set_item_categories:
  "set (item_categories s k) = {c \<in> set (categories s). (k, category_id c) \<in> set (item_category s)}"
  by (auto simp: item_categories_def split: if_splits)

lemma unique_items_subset: "set (unique_items xs) \<subseteq> set xs"
  by (induction xs rule: unique_items.induct) auto

lemma unique_items_Nil: "unique_items xs = [] \<longleftrightarrow> xs = []"
  by (cases xs) auto

lemma unique_items_ids: "item_id ` set (unique_items xs) = item_id ` set xs"
  by (induction xs rule: unique_items.induct) (auto simp: image_iff)

lemma unique_items_set:
  assumes "\<forall>x\<in>set xs. \<forall>y\<in>set xs. item_id x = item_id y \<longrightarrow> x = y"
  shows "set (unique_items xs) = set xs"
proof
  show "set (unique_items xs) \<subseteq> set xs" by (rule unique_items_subset)
  show "set xs \<subseteq> set (unique_items xs)"
  proof
    fix x assume x: "x \<in> set xs"
    then have "item_id x \<in> item_id ` set (unique_items xs)"
      by (simp add: unique_items_ids)
    then obtain y where y: "y \<in> set (unique_items xs)" "item_id y = item_id x"
      by auto
    with unique_items_subset have "y \<in> set xs" by blast
    with assms x y have "y = x" by blast
    with y show "x \<in> set (unique_items xs)" by simp
  qed
qed

lemma pk_same_id:
  "items_pk s \<Longrightarrow> x \<in> set (items s) \<Longrightarrow> y \<in> set (items s) \<Longrightarrow> item_id x = item_id y \<Longrightarrow> x = y"
  by (auto simp: items_pk_def distinct_map dest: inj_onD)

lemma filter_items_selected:
  "filter_items cs lo hi s =
     (if unique_items (selected s cs lo hi) = [] then (Inl (HTTPException 404 Items_not_found), s)
      else (Inr (map (to_response s) (unique_items (selected s cs lo hi))), s))"
  by (simp add: filter_items_def selected_def Let_def)

lemma set_selected: "set (selected s cs lo hi) = {i \<in> set (items s). spec_matches s cs lo hi i}"
  by (cases cs) (auto simp: selected_def spec_matches_def spec_associated_def set_item_categories)

text \<open>
  C5. \<open>filter_items\<close> never changes the store and never answers 200 with an empty
  list; when no stored item matches the filter it answers 404.
\<close>

theorem filter_items_no_match:
  "snd (filter_items cs lo hi s) = s
   \<and> fst (filter_items cs lo hi s) \<noteq> Inr []
   \<and> ((\<forall>i\<in>set (items s). \<not> spec_matches s cs lo hi i)
        \<longrightarrow> filter_items cs lo hi s = (Inl (HTTPException 404 Items_not_found), s))
   \<and> status_code (HTTPException 404 Items_not_found) = 404"
proof -
  have "selected s cs lo hi = []" if "\<forall>i\<in>set (items s). \<not> spec_matches s cs lo hi i"
  proof -
    have "set (selected s cs lo hi) = {}"
      using that by (auto simp: set_selected)
    then show ?thesis by simp
  qed
  then show ?thesis
    by (auto simp: filter_items_selected unique_items_Nil)
qed

theorem filter_items_no_match_witness:
  "filter_items (Some [''Toys'']) (Finite 0) PosInf shop
     = (Inl (HTTPException 404 Items_not_found), shop)"
proof -
  have "\<forall>i\<in>set (items shop). \<not> spec_matches shop (Some [''Toys'']) (Finite 0) PosInf i"
    by (simp add: shop_def spec_matches_def spec_associated_def)
  then show ?thesis
    using filter_items_no_match [of "Some [''Toys'']" "Finite 0" PosInf shop] by blast
qed

text \<open>
  C4. With \<open>min_price\<close> and \<open>max_price\<close> given or defaulted to 0 and infinity, a 200
  answer of \<open>GET /items\<close> lists exactly the stored items that match the filter, each
  with a price between the bounds; a 404 answer means that no stored item matches. The
  item table has a primary key.
\<close>

theorem get_items_result:
  assumes "items_pk s"
  shows "case fst (get_items cs mn mx s) of
           Inr rs \<Rightarrow>
             set rs = to_response s `
               {i \<in> set (items s).
                  spec_matches s cs (case mn of None \<Rightarrow> Finite 0 | Some m \<Rightarrow> m)
                                    (case mx of None \<Rightarrow> PosInf | Some m \<Rightarrow> m) i}
             \<and> (\<forall>r\<in>set rs. float_le (case mn of None \<Rightarrow> Finite 0 | Some m \<Rightarrow> m) (ir_price r)
                              \<and> float_le (ir_price r) (case mx of None \<Rightarrow> PosInf | Some m \<Rightarrow> m))
         | Inl e \<Rightarrow>
             {i \<in> set (items s).
                spec_matches s cs (case mn of None \<Rightarrow> Finite 0 | Some m \<Rightarrow> m)
                                  (case mx of None \<Rightarrow> PosInf | Some m \<Rightarrow> m) i} = {}"
proof -
  define lo where "lo = (case mn of None \<Rightarrow> Finite 0 | Some m \<Rightarrow> m)"
  define hi where "hi = (case mx of None \<Rightarrow> PosInf | Some m \<Rightarrow> m)"
  have sub: "set (selected s cs lo hi) \<subseteq> set (items s)"
    by (auto simp: set_selected)
  have "\<forall>x\<in>set (selected s cs lo hi). \<forall>y\<in>set (selected s cs lo hi). item_id x = item_id y \<longrightarrow> x = y"
    using sub pk_same_id [OF assms] by blast
  then have u: "set (unique_items (selected s cs lo hi)) = {i \<in> set (items s). spec_matches s cs lo hi i}"
    by (simp add: unique_items_set set_selected)
  have p: "float_le lo (ir_price (to_response s i)) \<and> float_le (ir_price (to_response s i)) hi"
    if "spec_matches s cs lo hi i" for i
    using that by (simp add: spec_matches_def to_response_def)
  have g: "get_items cs mn mx s = filter_items cs lo hi s"
    by (simp add: get_items_def lo_def hi_def)
  show ?thesis
    unfolding lo_def [symmetric] hi_def [symmetric] g
    using u p by (auto simp: filter_items_selected)
qed

theorem get_items_result_witness:
  "items_pk shop \<and>
   fst (get_items (Some [''Books'']) (Some (Finite 10)) (Some (Finite 20)) shop)
     = Inr [\<lparr>ir_id = 2, ir_name = ''Novel'', ir_description = Some ''paperback'',
              ir_price = Finite 12, ir_categories = [''Books'']\<rparr>]
   \<and> {i \<in> set (items shop). spec_matches shop (Some [''Books'']) (Finite 10) (Finite 20) i}
       = {\<lparr>item_id = 2, item_name = ''Novel'', item_description = Some ''paperback'',
           item_price = Finite 12\<rparr>}"
proof -
  have pk: "items_pk shop"
    by (simp add: items_pk_def shop_def)
  have r: "fst (get_items (Some [''Books'']) (Some (Finite 10)) (Some (Finite 20)) shop)
     = Inr [\<lparr>ir_id = 2, ir_name = ''Novel'', ir_description = Some ''paperback'',
              ir_price = Finite 12, ir_categories = [''Books'']\<rparr>]"
    by (simp add: get_items_def filter_items_def shop_def item_categories_def to_response_def Let_def)
  have m: "{i \<in> set (items shop). spec_matches shop (Some [''Books'']) (Finite 10) (Finite 20) i}
       = {\<lparr>item_id = 2, item_name = ''Novel'', item_description = Some ''paperback'',
           item_price = Finite 12\<rparr>}"
    by (auto simp: shop_def spec_matches_def spec_associated_def)
  show ?thesis
    using get_items_result [OF pk, of "Some [''Books'']" "Some (Finite 10)" "Some (Finite 20)"] pk r m
    by simp
qed

section \<open>The name of an item\<close>

text \<open>
  C9, as the code has it. A body without \<open>name\<close> is rejected with 422 by \<open>POST /items/\<close>
  and \<open>PUT /items/{item_id}\<close> alike, and the store is returned as it was. A body with a
  name and a price passes validation whatever the string is, the empty one included.
\<close>

theorem missing_name_rejected:
  "post_items (b\<lparr>body_name := None\<rparr>) s = (Inl RequestValidationError, s)
   \<and> put_items iid (b\<lparr>body_name := None\<rparr>) s = (Inl RequestValidationError, s)
   \<and> status_code RequestValidationError = 422
   \<and> validate_item \<lparr>body_name = Some n, body_description = d, body_price = Some p\<rparr>
       = Inr \<lparr>ic_name = n, ic_description = d, ic_price = p\<rparr>"
  by (simp add: post_items_def put_items_def validate_item_def)

text \<open>The sentence of the specification fails as written: \<open>POST /items/\<close> with an empty
  name answers 200 and stores the item.\<close>

theorem empty_name_accepted_counterexample:
  "post_items \<lparr>body_name = Some '''', body_description = None, body_price = Some (Finite 1)\<rparr>
              empty_store
     = (Inr \<lparr>ir_id = 1, ir_name = '''', ir_description = None, ir_price = Finite 1,
             ir_categories = []\<rparr>,
        \<lparr>items = [\<lparr>item_id = 1, item_name = '''', item_description = None, item_price = Finite 1\<rparr>],
         categories = [], item_category = []\<rparr>)"
  by (simp add: post_items_def validate_item_def create_item_def empty_store_def Let_def
                to_response_def item_categories_def new_id_def)

section \<open>Adding an item to a category twice\<close>

lemma category_items_append:
  "category_items (s\<lparr>item_category := item_category s @ [(iid, cid)]\<rparr>) cid
     = category_items s cid @ filter (\<lambda>it. item_id it = iid) (items s)"
  by (simp add: category_items_def cong del: if_weak_cong)

lemma set_category_items:
  "set (category_items s k) = {i \<in> set (items s). (item_id i, k) \<in> set (item_category s)}"
  by (auto simp: category_items_def split: if_splits)

lemma find_category_id:
  "find (\<lambda>c. category_id c = cid) xs = Some x \<Longrightarrow> category_id x = cid \<and> x \<in> set xs"
  by (auto simp: find_Some_iff)

lemma find_Some_filter: "find P xs = Some x \<Longrightarrow> x \<in> set (filter P xs)"
  by (auto simp: find_Some_iff)

text \<open>
  C2. For an existing category and an existing item, a second \<open>add_item_to_category\<close>
  leaves the store of the first one as it is and answers 200 with the item and its
  category names in that store; the pair is associated there.
\<close>

theorem add_item_to_category_idempotent:
  assumes "get_category s cid = Some c" and "get_item s iid = Some it"
  shows "snd (add_item_to_category cid iid (snd (add_item_to_category cid iid s)))
           = snd (add_item_to_category cid iid s)
         \<and> fst (add_item_to_category cid iid (snd (add_item_to_category cid iid s)))
           = Inr (to_response (snd (add_item_to_category cid iid s)) it)
         \<and> (cid \<in> set (map category_id (item_categories (snd (add_item_to_category cid iid s)) iid)))"
proof -
  define s1 where "s1 = snd (add_item_to_category cid iid s)"
  have iid: "item_id it = iid" and it_in: "it \<in> set (items s)"
    using assms(2) find_item_id by (auto simp: get_item_def)
  have s1: "s1 = (if iid \<in> set (map item_id (category_items s cid)) then s
                  else s\<lparr>item_category := item_category s @ [(iid, cid)]\<rparr>)"
    using assms iid by (simp add: s1_def add_item_to_category_def Let_def)
  have c1: "get_category s1 cid = Some c" and i1: "get_item s1 iid = Some it"
    using assms by (simp_all add: s1 get_category_def get_item_def)
  have "it \<in> set (filter (\<lambda>x. item_id x = iid) (items s))"
    using it_in iid by simp
  then have mem: "iid \<in> set (map item_id (category_items s1 cid))"
    using iid by (auto simp: s1 category_items_append image_iff)
  have run2: "add_item_to_category cid iid s1 = (Inr (to_response s1 it), s1)"
    using c1 i1 mem iid by (simp add: add_item_to_category_def Let_def)
  have "(iid, cid) \<in> set (item_category s1)"
    using mem by (auto simp: set_category_items)
  moreover have "c \<in> set (categories s1)" and "category_id c = cid"
    using c1 find_category_id by (auto simp: get_category_def)
  ultimately have "c \<in> set (item_categories s1 iid)"
    by (simp add: set_item_categories)
  then have linked: "cid \<in> set (map category_id (item_categories s1 iid))"
    using \<open>category_id c = cid\<close> by (auto simp: image_iff)
  show ?thesis
    unfolding s1_def [symmetric] using run2 linked by simp
qed


theorem add_item_to_category_idempotent_witness:
  "snd (add_item_to_category 2 1 (snd (add_item_to_category 2 1 shop)))
     = shop\<lparr>item_category := [(1, 1), (2, 2), (1, 2)]\<rparr>
   \<and> snd (add_item_to_category 2 1 shop) = shop\<lparr>item_category := [(1, 1), (2, 2), (1, 2)]\<rparr>
   \<and> fst (add_item_to_category 2 1 (snd (add_item_to_category 2 1 shop)))
     = Inr \<lparr>ir_id = 1, ir_name = ''Pen'', ir_description = None, ir_price = Finite 1.5,
             ir_categories = [''Office'', ''Books'']\<rparr>"
proof -
  have c: "get_category shop 2 = Some \<lparr>category_id = 2, category_name = ''Books''\<rparr>"
    by (simp add: get_category_def shop_def)
  have i: "get_item shop 1 = Some \<lparr>item_id = 1, item_name = ''Pen'', item_description = None,
                                    item_price = Finite 1.5\<rparr>"
    by (simp add: get_item_def shop_def)
  have once: "snd (add_item_to_category 2 1 shop) = shop\<lparr>item_category := [(1, 1), (2, 2), (1, 2)]\<rparr>"
    by (simp add: add_item_to_category_def get_category_def get_item_def category_items_def
                  shop_def Let_def)
  have resp: "to_response (shop\<lparr>item_category := [(1, 1), (2, 2), (1, 2)]\<rparr>)
                \<lparr>item_id = 1, item_name = ''Pen'', item_description = None, item_price = Finite 1.5\<rparr>
              = \<lparr>ir_id = 1, ir_name = ''Pen'', ir_description = None, ir_price = Finite 1.5,
                 ir_categories = [''Office'', ''Books'']\<rparr>"
    by (simp add: to_response_def item_categories_def shop_def)
  show ?thesis
    using add_item_to_category_idempotent [OF c i] once resp by simp
qed

section \<open>Invariants of the tables\<close>

lemma find_name: "find (\<lambda>c. category_name c = n) xs = Some x \<Longrightarrow> category_name x = n \<and> x \<in> set xs"
  by (auto simp: find_Some_iff)


lemma names_inj:
  "distinct (map category_name cs) \<Longrightarrow> x \<in> set cs \<Longrightarrow> y \<in> set cs
   \<Longrightarrow> category_name x = category_name y \<Longrightarrow> x = y"
  by (auto simp: distinct_map dest: inj_onD)

lemma ids_inj:
  "distinct (map category_id cs) \<Longrightarrow> x \<in> set cs \<Longrightarrow> y \<in> set cs
   \<Longrightarrow> category_id x = category_id y \<Longrightarrow> x = y"
  by (auto simp: distinct_map dest: inj_onD)

lemma precheck_unique:
  assumes "distinct (map category_name cs)"
    and "d \<in> set cs" and "category_name d = n"
  shows "find (\<lambda>c. category_name c = n) cs = Some d"
proof -
  obtain e where e: "find (\<lambda>c. category_name c = n) cs = Some e"
    using find_by_name_Some assms(2,3) by blast
  then have "category_name e = n" "e \<in> set cs"
    using find_name by auto
  then have "e = d"
    using names_inj [OF assms(1)] assms(2,3) by simp
  with e show ?thesis by simp
qed

lemma rename_distinct:
  assumes pk: "distinct (map category_id cs)" and un: "distinct (map category_name cs)"
    and free: "\<forall>d\<in>set cs. category_name d = n \<longrightarrow> category_id d = cid"
    and c': "category_name c' = n"
  shows "distinct (map category_name (map (\<lambda>c. if category_id c = cid then c' else c) cs))"
proof -
  have "distinct cs" using un by (simp add: distinct_map)
  moreover have "inj_on (\<lambda>c. category_name (if category_id c = cid then c' else c)) (set cs)"
  proof (rule inj_onI)
    fix x y assume x: "x \<in> set cs" and y: "y \<in> set cs"
      and eq: "category_name (if category_id x = cid then c' else x)
             = category_name (if category_id y = cid then c' else y)"
    show "x = y"
    proof (cases "category_id x = cid")
      case True
      note xt = this
      show ?thesis
      proof (cases "category_id y = cid")
        case True
        with xt show ?thesis using ids_inj [OF pk x y] by simp
      next
        case False
        with xt eq c' have "category_name y = n" by simp
        with free y False show ?thesis by blast
      qed
    next
      case False
      note xf = this
      show ?thesis
      proof (cases "category_id y = cid")
        case True
        with xf eq c' have "category_name x = n" by simp
        with free x xf show ?thesis by blast
      next
        case False
        with xf eq show ?thesis using names_inj [OF un x y] by simp
      qed
    qed
  qed
  ultimately show ?thesis
    by (simp add: distinct_map comp_def)
qed

lemma update_category_store:
  "items (snd (update_category cid cat ids s)) = items s
   \<and> (categories (snd (update_category cid cat ids s)) = categories s
      \<or> (\<exists>c. get_category s cid = Some c
        \<and> \<not> (case find (\<lambda>c. category_name c = cc_name cat) (categories s) of
                 Some e \<Rightarrow> category_id e \<noteq> cid | None \<Rightarrow> False)
        \<and> categories (snd (update_category cid cat ids s))
            = map (\<lambda>x. if category_id x = cid then c\<lparr>category_name := cc_name cat\<rparr> else x)
                  (categories s)))"
  by (cases "get_category s cid"; cases ids)
     (auto simp: update_category_def Let_def split: option.splits)

lemma rename_ids:
  "category_id c = cid
   \<Longrightarrow> map category_id (map (\<lambda>x. if category_id x = cid then c\<lparr>category_name := n\<rparr> else x) cs)
       = map category_id cs"
  by (induction cs) auto

lemma update_category_pk:
  assumes "categories_pk s"
  shows "categories_pk (snd (update_category cid cat ids s))"
proof -
  consider "categories (snd (update_category cid cat ids s)) = categories s"
    | c where "get_category s cid = Some c"
      "categories (snd (update_category cid cat ids s))
            = map (\<lambda>x. if category_id x = cid then c\<lparr>category_name := cc_name cat\<rparr> else x)
                  (categories s)"
    using update_category_store [of cid cat ids s] by blast
  then show ?thesis
  proof cases
    case 1
    with assms show ?thesis by (simp add: categories_pk_def)
  next
    case (2 c)
    have "category_id c = cid"
      using 2(1) find_category_id by (auto simp: get_category_def)
    then show ?thesis
      using assms unfolding categories_pk_def 2(2) by (simp only: rename_ids)
  qed
qed

lemma update_category_names:
  assumes pk: "categories_pk s" and un: "names_unique s"
  shows "names_unique (snd (update_category cid cat ids s))"
proof -
  consider "categories (snd (update_category cid cat ids s)) = categories s"
    | c where "get_category s cid = Some c"
      "\<not> (case find (\<lambda>c. category_name c = cc_name cat) (categories s) of
                 Some e \<Rightarrow> category_id e \<noteq> cid | None \<Rightarrow> False)"
      "categories (snd (update_category cid cat ids s))
            = map (\<lambda>x. if category_id x = cid then c\<lparr>category_name := cc_name cat\<rparr> else x)
                  (categories s)"
    using update_category_store [of cid cat ids s] by blast
  then show ?thesis
  proof cases
    case 1
    with un show ?thesis by (simp add: names_unique_def)
  next
    case (2 c)
    have free: "\<forall>d\<in>set (categories s). category_name d = cc_name cat \<longrightarrow> category_id d = cid"
    proof (intro ballI impI)
      fix d assume d: "d \<in> set (categories s)" "category_name d = cc_name cat"
      have "find (\<lambda>c. category_name c = cc_name cat) (categories s) = Some d"
        using precheck_unique [OF _ d] un by (simp add: names_unique_def)
      with 2(2) show "category_id d = cid" by simp
    qed
    show ?thesis
      unfolding names_unique_def 2(3)
      by (rule rename_distinct) (use pk un free in \<open>simp_all add: categories_pk_def names_unique_def\<close>)
  qed
qed

lemma create_category_store:
  "snd (create_category cat s) = s
   \<or> (cc_name cat \<notin> set (map category_name (categories s))
       \<and> snd (create_category cat s)
           = s\<lparr>categories := categories s @ [\<lparr>category_id = new_id (map category_id (categories s)),
                                               category_name = cc_name cat\<rparr>]\<rparr>)"
  by (auto simp: create_category_def Let_def split: option.splits)

lemma create_category_inv:
  assumes "store_inv s"
  shows "store_inv (snd (create_category cat s))"
  using assms create_category_store [of cat s] new_id_fresh [of "map category_id (categories s)"]
  by (auto simp: store_inv_def items_pk_def categories_pk_def names_unique_def)

lemma create_item_inv:
  assumes "store_inv s"
  shows "store_inv (snd (create_item item s))"
  using assms new_id_fresh [of "map item_id (items s)"]
  by (auto simp: store_inv_def items_pk_def categories_pk_def names_unique_def create_item_def Let_def)

lemma update_item_store:
  "map item_id (items (snd (update_item iid item s))) = map item_id (items s)
   \<and> categories (snd (update_item iid item s)) = categories s
   \<and> item_category (snd (update_item iid item s)) = item_category s"
proof (cases "get_item s iid")
  case None
  then show ?thesis by (simp add: update_item_def)
next
  case (Some d)
  then have "item_id d = iid"
    using find_item_id by (auto simp: get_item_def)
  with Some show ?thesis
    by (simp add: update_item_def Let_def)
qed

lemma update_item_inv:
  assumes "store_inv s"
  shows "store_inv (snd (update_item iid item s))"
  using assms update_item_store [of iid item s]
  by (simp add: store_inv_def items_pk_def categories_pk_def names_unique_def)

lemma delete_item_inv:
  assumes "store_inv s"
  shows "store_inv (snd (delete_item iid s))"
  using assms
  by (auto simp: store_inv_def items_pk_def categories_pk_def names_unique_def delete_item_def
                 distinct_map_filter split: option.splits)

lemma add_item_to_category_inv:
  assumes "store_inv s"
  shows "store_inv (snd (add_item_to_category cid iid s))"
  using assms
  by (auto simp: store_inv_def items_pk_def categories_pk_def names_unique_def
                 add_item_to_category_def Let_def split: option.splits)

lemma update_category_inv:
  assumes "store_inv s"
  shows "store_inv (snd (update_category cid cat ids s))"
  using assms update_category_pk [of s cid cat ids] update_category_names [of s cid cat ids]
    update_category_store [of cid cat ids s]
  by (simp add: store_inv_def items_pk_def)

lemma handle_inv: "store_inv s \<Longrightarrow> store_inv (handle r s)"
proof (cases r)
  case (Create_item b)
  assume "store_inv s"
  then show ?thesis
    using create_item_inv Create_item by (auto simp: post_items_def split: sum.splits)
next
  case (Update_item iid b)
  assume "store_inv s"
  then show ?thesis
    using update_item_inv Update_item by (auto simp: put_items_def split: sum.splits)
next
  case (Filter_items cs mn mx)
  assume "store_inv s"
  then show ?thesis
    using Filter_items filter_items_selected by (simp add: get_items_def)
qed (simp_all add: delete_item_inv create_category_inv get_categories_def
       add_item_to_category_inv update_category_inv)

text \<open>Every store the service reaches from the empty one has primary keys and distinct
  category names, so the theorems that assume them speak of every such store.\<close>

lemma reachable_inv: "reachable s \<Longrightarrow> store_inv s"
proof (induction rule: reachable.induct)
  case initial
  show ?case
    by (simp add: store_inv_def items_pk_def categories_pk_def names_unique_def empty_store_def)
next
  case (request s r)
  then show ?case by (simp add: handle_inv)
qed

lemma handle_names:
  assumes "categories_pk s" and "names_unique s"
  shows "names_unique (handle r s)"
proof (cases r)
  case (Create_category c)
  then show ?thesis
    using assms create_category_store [of c s] by (auto simp: names_unique_def)
next
  case (Update_category cid c ids)
  then show ?thesis
    using assms by (simp add: update_category_names)
next
  case (Create_item b)
  then show ?thesis
    using assms by (auto simp: names_unique_def post_items_def create_item_def Let_def split: sum.splits)
next
  case (Update_item iid b)
  then show ?thesis
    using assms update_item_store [of iid _ s]
    by (auto simp: names_unique_def put_items_def split: sum.splits)
next
  case (Delete_item iid)
  then show ?thesis
    using assms by (auto simp: names_unique_def delete_item_def split: option.splits)
next
  case Get_categories
  then show ?thesis
    using assms by (simp add: get_categories_def)
next
  case (Add_item_to_category cid iid)
  then show ?thesis
    using assms by (auto simp: names_unique_def add_item_to_category_def Let_def split: option.splits)
next
  case (Filter_items cs mn mx)
  then show ?thesis
    using assms filter_items_selected by (simp add: get_items_def)
qed

text \<open>
  C3. Category names are pairwise distinct in every store the service can reach from
  the empty one, and every request leaves them distinct when it starts from a store
  whose category table has a primary key and distinct names.
\<close>

theorem category_names_unique:
  "(reachable s \<longrightarrow> names_unique s)
   \<and> (categories_pk s \<and> names_unique s \<longrightarrow> names_unique (handle r s))"
  using reachable_inv [of s] handle_names [of s r] by (auto simp: store_inv_def)

theorem category_names_unique_witness:
  "reachable (handle (Create_category \<lparr>cc_name = ''Books''\<rparr>) empty_store)
   \<and> categories (handle (Create_category \<lparr>cc_name = ''Books''\<rparr>) empty_store)
       = [\<lparr>category_id = 1, category_name = ''Books''\<rparr>]
   \<and> names_unique (handle (Create_category \<lparr>cc_name = ''Books''\<rparr>) empty_store)
   \<and> names_unique (handle (Create_category \<lparr>cc_name = ''Books''\<rparr>)
                     (handle (Create_category \<lparr>cc_name = ''Books''\<rparr>) empty_store))"
proof -
  define s1 where "s1 = handle (Create_category \<lparr>cc_name = ''Books''\<rparr>) empty_store"
  have r: "reachable s1"
    unfolding s1_def by (intro reachable.intros)
  have c: "categories s1 = [\<lparr>category_id = 1, category_name = ''Books''\<rparr>]"
    by (simp add: s1_def create_category_def empty_store_def new_id_def Let_def)
  then have pk: "categories_pk s1"
    by (simp add: categories_pk_def)
  show ?thesis
    unfolding s1_def [symmetric]
    using category_names_unique [of s1 "Create_category \<lparr>cc_name = ''Books''\<rparr>"] r c pk by simp
qed

section \<open>Renaming a category\<close>

text \<open>
  C6. On a store with distinct category names, renaming an existing category to its own
  name passes the name check: the answer is 200 with that name, or, when item ids are
  given, what the item query answers (404 when the ids are bound and not all found, the
  driver's error when one cannot be bound), never 400. Renaming it to the name of a
  category with another id answers 400 and returns the store as it was.
\<close>

theorem rename_check_excludes_target:
  assumes un: "names_unique s" and c: "get_category s cid = Some c"
  shows "(case fst (update_category cid \<lparr>cc_name = category_name c\<rparr> ids s) of
            Inr r \<Rightarrow> cr_id r = cid \<and> cr_name r = category_name c
          | Inl e \<Rightarrow>
              ids \<noteq> None \<and> status_code e \<noteq> 400 \<and>
              (case ids of
                 None \<Rightarrow> False
               | Some l \<Rightarrow>
                   e = (if list_all in_range l then HTTPException 404 Some_items_not_found
                        else OverflowError)))
         \<and> (\<forall>d\<in>set (categories s). category_id d \<noteq> cid \<longrightarrow>
               update_category cid \<lparr>cc_name = category_name d\<rparr> ids s
                 = (Inl (HTTPException 400 Category_name_exists), s))"
proof -
  have cin: "c \<in> set (categories s)" and cid: "category_id c = cid"
    using c find_category_id by (auto simp: get_category_def)
  have dn: "distinct (map category_name (categories s))"
    using un by (simp add: names_unique_def)
  have self: "find (\<lambda>x. category_name x = category_name c) (categories s) = Some c"
    using precheck_unique [OF dn cin] by simp
  have a: "case fst (update_category cid \<lparr>cc_name = category_name c\<rparr> ids s) of
            Inr r \<Rightarrow> cr_id r = cid \<and> cr_name r = category_name c
          | Inl e \<Rightarrow>
              ids \<noteq> None \<and> status_code e \<noteq> 400 \<and>
              (case ids of
                 None \<Rightarrow> False
               | Some l \<Rightarrow>
                   e = (if list_all in_range l then HTTPException 404 Some_items_not_found
                        else OverflowError))"
    using c self cid
    by (cases ids) (simp_all add: update_category_def Let_def to_category_response_def)
  have b: "update_category cid \<lparr>cc_name = category_name d\<rparr> ids s
             = (Inl (HTTPException 400 Category_name_exists), s)"
    if "d \<in> set (categories s)" "category_id d \<noteq> cid" for d
  proof -
    have "find (\<lambda>x. category_name x = category_name d) (categories s) = Some d"
      using precheck_unique [OF dn that(1)] by simp
    with c that(2) show ?thesis
      by (simp add: update_category_def)
  qed
  from a b show ?thesis by blast
qed

theorem rename_check_excludes_target_witness:
  "names_unique shop
   \<and> fst (update_category 1 \<lparr>cc_name = ''Office''\<rparr> None shop)
       = Inr \<lparr>cr_id = 1, cr_name = ''Office'',
              cr_items = [\<lparr>ir_id = 1, ir_name = ''Pen'', ir_description = None,
                           ir_price = Finite 1.5, ir_categories = [''Office'']\<rparr>]\<rparr>
   \<and> update_category 1 \<lparr>cc_name = ''Books''\<rparr> None shop
       = (Inl (HTTPException 400 Category_name_exists), shop)"
proof -
  have un: "names_unique shop"
    by (simp add: names_unique_def shop_def)
  have c: "get_category shop 1 = Some \<lparr>category_id = 1, category_name = ''Office''\<rparr>"
    by (simp add: get_category_def shop_def)
  have d: "\<lparr>category_id = 2, category_name = ''Books''\<rparr> \<in> set (categories shop)"
    by (simp add: shop_def)
  have r: "fst (update_category 1 \<lparr>cc_name = ''Office''\<rparr> None shop)
       = Inr \<lparr>cr_id = 1, cr_name = ''Office'',
              cr_items = [\<lparr>ir_id = 1, ir_name = ''Pen'', ir_description = None,
                           ir_price = Finite 1.5, ir_categories = [''Office'']\<rparr>]\<rparr>"
    by (simp add: update_category_def get_category_def shop_def Let_def to_category_response_def
                  to_response_def category_items_def item_categories_def)
  show ?thesis
    using rename_check_excludes_target [OF un c, of None] un d r by fastforce
qed

section \<open>Replacing the items of a category\<close>














end
